theory Spec2Isabelle
  imports Main
begin

section \<open>Device errors (src/errors/index.ts)\<close>

datatype DeviceErrorType =
    NOT_CONNECTED
  | DEVICE_DISCONNECTED_IN_FLOW
  | CONNECTION_CLOSED
  | CONNECTION_NOT_OPEN
  | WRITE_ERROR
  | TIMEOUT_ERROR
  | WRITE_TIMEOUT
  | READ_TIMEOUT
  | FIRMWARE_SIZE_LIMIT_EXCEEDED
  | WRONG_FIRMWARE_VERSION
  | WRONG_HARDWARE_VERSION
  | WRONG_MAGIC_NUMBER
  | SIGNATURE_NOT_VERIFIED
  | LOWER_FIRMWARE_VERSION
  | NO_WORKING_PACKET_VERSION
  | UNKNOWN_COMMUNICATION_ERROR

text \<open>The string each member of the enum stands for.\<close>

fun enum_value :: "DeviceErrorType \<Rightarrow> string" where
  "enum_value NOT_CONNECTED = ''HD_INIT_1001''"
| "enum_value DEVICE_DISCONNECTED_IN_FLOW = ''HD_INIT_1010''"
| "enum_value CONNECTION_CLOSED = ''HD_INIT_1011''"
| "enum_value CONNECTION_NOT_OPEN = ''HD_INIT_1012''"
| "enum_value WRITE_ERROR = ''HD_COM_1007''"
| "enum_value TIMEOUT_ERROR = ''HD_COM_1050''"
| "enum_value WRITE_TIMEOUT = ''HD_COM_1051''"
| "enum_value READ_TIMEOUT = ''HD_COM_1052''"
| "enum_value FIRMWARE_SIZE_LIMIT_EXCEEDED = ''HD_FIRM_1001''"
| "enum_value WRONG_FIRMWARE_VERSION = ''HD_FIRM_1002''"
| "enum_value WRONG_HARDWARE_VERSION = ''HD_FIRM_1003''"
| "enum_value WRONG_MAGIC_NUMBER = ''HD_FIRM_1004''"
| "enum_value SIGNATURE_NOT_VERIFIED = ''HD_FIRM_1005''"
| "enum_value LOWER_FIRMWARE_VERSION = ''HD_FIRM_1006''"
| "enum_value NO_WORKING_PACKET_VERSION = ''HD_INIT_2006''"
| "enum_value UNKNOWN_COMMUNICATION_ERROR = ''HD_COM_5500''"

text \<open>The table \<open>errorObjects\<close>, one function per column.\<close>

fun errorObjects_message :: "DeviceErrorType \<Rightarrow> string" where
  "errorObjects_message NOT_CONNECTED = ''No device connected''"
| "errorObjects_message DEVICE_DISCONNECTED_IN_FLOW = ''Device disconnected in flow''"
| "errorObjects_message CONNECTION_CLOSED = ''Connection was closed while in process''"
| "errorObjects_message CONNECTION_NOT_OPEN = ''Connection was not open''"
| "errorObjects_message WRITE_ERROR = ''Unable to write packet to the device''"
| "errorObjects_message TIMEOUT_ERROR = ''Timeout Error due to write/read''"
| "errorObjects_message WRITE_TIMEOUT = ''Did not receive ACK of sent packet on time''"
| "errorObjects_message READ_TIMEOUT =
     ''Did not receive the expected data from device on time''"
| "errorObjects_message FIRMWARE_SIZE_LIMIT_EXCEEDED = ''Firmware Size Limit Exceed''"
| "errorObjects_message WRONG_FIRMWARE_VERSION = ''Wrong Firmware version''"
| "errorObjects_message WRONG_HARDWARE_VERSION = ''Wrong Hardware version''"
| "errorObjects_message WRONG_MAGIC_NUMBER = ''Wrong Magic Number''"
| "errorObjects_message SIGNATURE_NOT_VERIFIED = ''Signature not verified''"
| "errorObjects_message LOWER_FIRMWARE_VERSION = ''Lower Firmware version''"
| "errorObjects_message NO_WORKING_PACKET_VERSION = ''No working packet version''"
| "errorObjects_message UNKNOWN_COMMUNICATION_ERROR =
     ''Unknown Error at communication module''"

fun errorObjects_doRetry :: "DeviceErrorType \<Rightarrow> bool" where
  "errorObjects_doRetry WRITE_ERROR = True"
| "errorObjects_doRetry TIMEOUT_ERROR = True"
| "errorObjects_doRetry WRITE_TIMEOUT = True"
| "errorObjects_doRetry READ_TIMEOUT = True"
| "errorObjects_doRetry UNKNOWN_COMMUNICATION_ERROR = True"
| "errorObjects_doRetry _ = False"

text \<open>
  The class \<open>DeviceError\<close>. Its constructor stores \<open>errorCode || UNKNOWN_COMMUNICATION_ERROR\<close>
  in both \<open>code\<close> and \<open>errorType\<close>; a string is falsy exactly when it is empty.
\<close>

record DeviceError =
  code :: DeviceErrorType
  errorType :: DeviceErrorType
  message :: string
  doRetry :: bool

definition truthy_string :: "string \<Rightarrow> bool" where
  "truthy_string s = (s \<noteq> [])"

definition new_DeviceError :: "DeviceErrorType \<Rightarrow> DeviceError" where
  "new_DeviceError errorCode =
     (let c = (if truthy_string (enum_value errorCode) then errorCode
               else UNKNOWN_COMMUNICATION_ERROR)
      in \<lparr> code = c, errorType = c,
           message = errorObjects_message c, doRetry = errorObjects_doRetry c \<rparr>)"

section \<open>Collaborators that writePacket and sendData consume\<close>

text \<open>
  Modelled from the spec: the protocol version type of \<open>utils/versions\<close> is not among the
  sources. The spec calls it an enumerated value (v1, v2, ...); \<open>writePacket\<close> only tests
  whether the version is \<open>PacketVersionMap.v2\<close>.
\<close>

datatype PacketVersion = v1 | v2 | later_version nat

text \<open>
  The tables \<open>constants\<close> and \<open>commands\<close> of \<open>config\<close> are not among the sources either; the
  four entries that \<open>writePacket\<close> reads are parameters of the model.
\<close>

record config =
  constants_v1_ACK_TIME :: int
  constants_v2_ACK_TIME :: int
  commands_v1_ACK_PACKET :: int
  commands_v1_NACK_PACKET :: int

text \<open>The record carried by an \<open>ack\<close> notification; only \<open>commandType\<close> is read.\<close>

record PacketData =
  commandType :: int

text \<open>
  What can happen to one invocation of \<open>writePacket\<close> once its promise executor has run, in
  the order the event loop delivers it: the connection emits \<open>ack\<close> or \<open>close\<close> (the latter
  with or without an error value), the promise returned by \<open>connection.write\<close> resolves or
  rejects, and the time \<open>ACK_TIME\<close> has passed since \<open>setTimeout\<close>.
\<close>

datatype event =
    AckEvent PacketData
  | CloseEvent bool
  | WriteResolved
  | WriteRejected
  | TimeElapsed

datatype settled = Resolved | Rejected DeviceError

text \<open>
  The state one invocation of \<open>writePacket\<close> works on: the connection (the packets handed
  to \<open>connection.write\<close>, oldest first, and whether \<open>dataListener\<close> and \<open>onClose\<close> are
  registered), the promise of \<open>connection.write\<close>, the variable \<open>timeout\<close> (\<open>None\<close> is
  \<open>undefined\<close>, \<open>Some d\<close> the handle of a timer of \<open>d\<close> milliseconds), whether that timer
  is still scheduled, and the state of the promise that \<open>writePacket\<close> returns (\<open>None\<close> is
  pending).
\<close>

record 'p world =
  written :: "'p list"
  ack_listener :: bool
  close_listener :: bool
  write_pending :: bool
  timeout :: "int option"
  timer_scheduled :: bool
  outcome :: "settled option"

section \<open>writePacket\<close>

text \<open>
  \<open>resolve\<close> and \<open>reject\<close> of a promise: only the first call settles it, every later call
  does nothing and raises nothing.
\<close>

definition resolve :: "'p world \<Rightarrow> 'p world" where
  "resolve s = (case outcome s of None \<Rightarrow> s\<lparr>outcome := Some Resolved\<rparr> | Some _ \<Rightarrow> s)"

definition reject :: "DeviceError \<Rightarrow> 'p world \<Rightarrow> 'p world" where
  "reject e s = (case outcome s of None \<Rightarrow> s\<lparr>outcome := Some (Rejected e)\<rparr> | Some _ \<Rightarrow> s)"

definition clearTimeout :: "'p world \<Rightarrow> 'p world" where
  "clearTimeout s = s\<lparr>timer_scheduled := False\<rparr>"

definition removeListener_ack :: "'p world \<Rightarrow> 'p world" where
  "removeListener_ack s = s\<lparr>ack_listener := False\<rparr>"

definition removeListener_close :: "'p world \<Rightarrow> 'p world" where
  "removeListener_close s = s\<lparr>close_listener := False\<rparr>"

text \<open>The guarded \<open>if (timeout) clearTimeout(timeout)\<close> that three handlers start with.\<close>

definition clear_if_set :: "'p world \<Rightarrow> 'p world" where
  "clear_if_set s = (if timeout s \<noteq> None then clearTimeout s else s)"

text \<open>
  \<open>dataListener\<close>: the timer and both listeners are released before the \<open>switch\<close>, which
  has no default case. The calls of \<open>logger\<close> are left out here and below.
\<close>

definition dataListener :: "config \<Rightarrow> PacketData \<Rightarrow> 'p world \<Rightarrow> 'p world" where
  "dataListener cfg ePacket s =
     (let s1 = clear_if_set s;
          s2 = removeListener_ack s1;
          s3 = removeListener_close s2
      in if commandType ePacket = commands_v1_ACK_PACKET cfg then resolve s3
         else if commandType ePacket = commands_v1_NACK_PACKET cfg
           then reject (new_DeviceError WRITE_ERROR) s3
         else s3)"

definition onClose :: "bool \<Rightarrow> 'p world \<Rightarrow> 'p world" where
  "onClose err s =
     reject (new_DeviceError CONNECTION_CLOSED)
       (removeListener_close (removeListener_ack (clear_if_set s)))"

text \<open>The handler given to \<open>.catch\<close> on the promise of \<open>connection.write\<close>.\<close>

definition write_catch :: "'p world \<Rightarrow> 'p world" where
  "write_catch s =
     reject (new_DeviceError WRITE_ERROR)
       (removeListener_close (removeListener_ack (clear_if_set s)))"

text \<open>The callback given to \<open>setTimeout\<close>.\<close>

definition timeout_callback :: "'p world \<Rightarrow> 'p world" where
  "timeout_callback s =
     reject (new_DeviceError WRITE_TIMEOUT)
       (removeListener_close (removeListener_ack s))"

text \<open>
  The event loop: a notification reaches a handler only while that handler is registered,
  the promise of the write settles once, and a timer runs its callback once unless it was
  cleared.
\<close>

fun deliver :: "config \<Rightarrow> event \<Rightarrow> 'p world \<Rightarrow> 'p world" where
  "deliver cfg (AckEvent ePacket) s =
     (if ack_listener s then dataListener cfg ePacket s else s)"
| "deliver cfg (CloseEvent err) s =
     (if close_listener s then onClose err s else s)"
| "deliver cfg WriteResolved s =
     (if write_pending s then s\<lparr>write_pending := False\<rparr> else s)"
| "deliver cfg WriteRejected s =
     (if write_pending s then write_catch (s\<lparr>write_pending := False\<rparr>) else s)"
| "deliver cfg TimeElapsed s =
     (if timer_scheduled s then timeout_callback (s\<lparr>timer_scheduled := False\<rparr>) else s)"

definition run :: "config \<Rightarrow> event list \<Rightarrow> 'p world \<Rightarrow> 'p world" where
  "run cfg evs s = fold (deliver cfg) evs s"

text \<open>
  The promise executor: a new pending promise and an unassigned \<open>timeout\<close>, then both
  listeners, the write, and the timer, in this order.
\<close>

definition executor :: "config \<Rightarrow> int \<Rightarrow> 'p \<Rightarrow> 'p world \<Rightarrow> 'p world" where
  "executor cfg ack_time packet s =
     (let s0 = s\<lparr>outcome := None, timeout := None\<rparr>;
          s1 = s0\<lparr>ack_listener := True\<rparr>;
          s2 = s1\<lparr>close_listener := True\<rparr>;
          s3 = s2\<lparr>written := written s2 @ [packet], write_pending := True\<rparr>
      in s3\<lparr>timeout := Some ack_time, timer_scheduled := True\<rparr>)"

text \<open>
  \<open>writePacket\<close> itself, up to the point where it returns: \<open>Inl\<close> is the error thrown
  when the connection is not connected (the state is returned as it was), \<open>Inr\<close> the
  state in which the returned promise is pending.
\<close>

definition writePacket ::
  "config \<Rightarrow> bool \<Rightarrow> 'p \<Rightarrow> PacketVersion \<Rightarrow> 'p world \<Rightarrow> (DeviceError + unit) \<times> 'p world" where
  "writePacket cfg isConnected packet version s =
     (if \<not> isConnected then (Inl (new_DeviceError CONNECTION_CLOSED), s)
      else
        let usableConstants =
              (if version = v2 then constants_v2_ACK_TIME cfg else constants_v1_ACK_TIME cfg)
        in (Inr (), executor cfg usableConstants packet s))"

text \<open>
  How the connection behaves during one invocation: what \<open>isConnected()\<close> answers and the
  events that follow the executor.
\<close>

record behaviour =
  isConnected :: bool
  events :: "event list"

text \<open>
  \<open>await writePacket(...)\<close> inside a \<open>try\<close>: a thrown error and a rejection are caught
  alike; \<open>None\<close> means that the promise is still pending after the last event.
\<close>

definition await_writePacket ::
  "config \<Rightarrow> behaviour \<Rightarrow> 'p \<Rightarrow> PacketVersion \<Rightarrow> 'p world \<Rightarrow> settled option \<times> 'p world" where
  "await_writePacket cfg b packet version s =
     (case writePacket cfg (isConnected b) packet version s of
        (Inl e, s') \<Rightarrow> (Some (Rejected e), s')
      | (Inr u, s') \<Rightarrow> (let s'' = run cfg (events b) s' in (outcome s'', s'')))"

text \<open>A connection on which nothing is registered, scheduled or written yet.\<close>

definition idle :: "'p world" where
  "idle = \<lparr> written = [], ack_listener = False, close_listener = False,
           write_pending = False, timeout = None, timer_scheduled = False,
           outcome = None \<rparr>"

section \<open>JavaScript numbers\<close>

text \<open>
  \<open>tries\<close> and \<open>maxTries\<close> are JavaScript numbers, that is IEEE 754 doubles. A finite double
  is a dyadic rational: \<open>Finite m e\<close> stands for \<open>m * 2 ^ e\<close> (every double has this form
  with \<open>\<bar>m\<bar> < 2 ^ 53\<close>; the two zeros are one value here, they compare equal and both
  give 1 when incremented).
\<close>

datatype js_number = Finite int int | PosInfinity | NegInfinity | NaN

text \<open>The number of binary digits of a positive integer.\<close>

function bit_length :: "int \<Rightarrow> nat" where
  "bit_length n = (if n \<le> 0 then 0 else Suc (bit_length (n div 2)))"
  by pat_completeness auto
termination
  by (relation "measure nat") auto

text \<open>
  The double nearest to \<open>n * 2 ^ e\<close>, ties to the even significand: up to \<open>2 ^ 53\<close> the
  integer \<open>n\<close> is a significand as it is, beyond that it is cut to 53 binary digits.
  (No sum \<open>x + 1\<close> of a double \<open>x\<close> leaves the range of the exponents, which is not
  modelled.)
\<close>

definition round_to_double :: "int \<Rightarrow> int \<Rightarrow> js_number" where
  "round_to_double n e =
     (if \<bar>n\<bar> \<le> 2 ^ 53 then Finite n e
      else
        let k = bit_length \<bar>n\<bar> - 53;
            q = \<bar>n\<bar> div 2 ^ k;
            r = \<bar>n\<bar> mod 2 ^ k;
            q' = (if 2 ^ k < 2 * r \<or> (2 * r = 2 ^ k \<and> odd q) then q + 1 else q)
        in Finite (sgn n * q') (e + int k))"

text \<open>The statement \<open>tries++\<close>: the double nearest to \<open>tries + 1\<close>.\<close>

fun js_increment :: "js_number \<Rightarrow> js_number" where
  "js_increment (Finite m e) =
     (if 0 \<le> e then round_to_double (m * 2 ^ nat e + 1) 0
      else round_to_double (m + 2 ^ nat (- e)) e)"
| "js_increment PosInfinity = PosInfinity"
| "js_increment NegInfinity = NegInfinity"
| "js_increment NaN = NaN"

text \<open>The comparison \<open>a <= b\<close>, false whenever \<open>NaN\<close> takes part.\<close>

fun js_le :: "js_number \<Rightarrow> js_number \<Rightarrow> bool" where
  "js_le NaN b = False"
| "js_le a NaN = False"
| "js_le NegInfinity b = True"
| "js_le a PosInfinity = True"
| "js_le PosInfinity b = False"
| "js_le a NegInfinity = False"
| "js_le (Finite m1 e1) (Finite m2 e2) =
     (if e1 \<le> e2 then m1 \<le> m2 * 2 ^ nat (e2 - e1) else m1 * 2 ^ nat (e1 - e2) \<le> m2)"

section \<open>sendData\<close>

text \<open>
  The connection as \<open>sendData\<close> meets it: how it behaves during the invocation of
  \<open>writePacket\<close> number 0, 1, 2, ... of this send operation.
\<close>

type_synonym connection = "nat \<Rightarrow> behaviour"

text \<open>
  One invocation of \<open>writePacket\<close> as an observer of the send operation records it: the
  position of the packet in \<open>packetsList\<close>, the packet, whether \<open>connection.write\<close> was
  reached, and what the \<open>await\<close> produced (\<open>None\<close>: it never returned).
\<close>

record 'p call =
  call_index :: nat
  call_packet :: 'p
  call_wrote :: bool
  call_result :: "settled option"

record 'p sender =
  conn :: "'p world"
  calls :: "'p call list"

definition start :: "'p sender" where
  "start = \<lparr> conn = idle, calls = [] \<rparr>"

text \<open>The test \<open>[CONNECTION_CLOSED, CONNECTION_NOT_OPEN, NOT_CONNECTED].includes(e.errorType)\<close>.\<close>

definition connection_fatal :: "DeviceError \<Rightarrow> bool" where
  "connection_fatal e =
     (errorType e \<in> set [CONNECTION_CLOSED, CONNECTION_NOT_OPEN, NOT_CONNECTED])"

text \<open>
  The retry loop does not depend on what the call it awaits does, only on what the
  \<open>await\<close> gives back. That call is therefore an argument of the loop: from the number of
  the invocation, the packet and the state, the outcome and the new state. In
  \<open>sendData\<close> it is \<open>writePacket(connection, d, version)\<close>.
\<close>

type_synonym 'p writer = "nat \<Rightarrow> 'p \<Rightarrow> 'p world \<Rightarrow> settled option \<times> 'p world"

definition writePacket_on :: "config \<Rightarrow> connection \<Rightarrow> PacketVersion \<Rightarrow> 'p writer" where
  "writePacket_on cfg connection version n d w =
     await_writePacket cfg (connection n) d version w"

text \<open>The \<open>await\<close> of the retry loop, with the invocation recorded.\<close>

definition attempt ::
  "'p writer \<Rightarrow> nat \<Rightarrow> 'p \<Rightarrow> 'p sender \<Rightarrow> settled option \<times> 'p sender" where
  "attempt wp i d st =
     (let (r, w) = wp (length (calls st)) d (conn st)
      in (r, \<lparr> conn = w,
               calls = calls st @ [\<lparr> call_index = i, call_packet = d,
                                     call_wrote = (written w \<noteq> written (conn st)),
                                     call_result = r \<rparr>] \<rparr>))"

text \<open>
  The loop \<open>while (tries <= _maxTries)\<close> of the function built for packet \<open>d\<close>, with the
  code after it. Every value that \<open>writePacket\<close> throws or rejects with is a
  \<open>DeviceError\<close> object, so \<open>e instanceof DeviceError\<close> holds and \<open>!firstError\<close> is true
  exactly while \<open>firstError\<close> is unassigned. A promise that stays pending leaves the
  loop suspended at the \<open>await\<close>: the result is \<open>Some (None, _)\<close>. The loop itself need
  not end (\<open>tries++\<close> changes neither \<open>2 ^ 53\<close> nor \<open>Infinity\<close>): then the result is
  \<open>None\<close>.
\<close>

partial_function (option) while_tries ::
  "'p writer \<Rightarrow> nat \<Rightarrow> 'p \<Rightarrow> js_number \<Rightarrow> js_number \<Rightarrow> DeviceError option \<Rightarrow> 'p sender
     \<Rightarrow> (settled option \<times> 'p sender) option" where
  "while_tries wp i d tries maxTries' firstError st =
     (if js_le tries maxTries' then
        (case attempt wp i d st of
           (Some Resolved, st') \<Rightarrow> Some (Some Resolved, st')
         | (None, st') \<Rightarrow> Some (None, st')
         | (Some (Rejected e), st') \<Rightarrow>
             while_tries wp i d
               (js_increment (if connection_fatal e then maxTries' else tries)) maxTries'
               (case firstError of None \<Rightarrow> Some e | Some f \<Rightarrow> Some f) st')
      else
        (case firstError of
           Some f \<Rightarrow> Some (Some (Rejected f), st)
         | None \<Rightarrow> Some (Some (Rejected (new_DeviceError WRITE_TIMEOUT)), st)))"

declare while_tries.simps [code]

text \<open>
  The element of \<open>dataList\<close> built for the packet \<open>d\<close> at position \<open>i\<close>; \<open>budget\<close> is its
  \<open>_maxTries\<close>.
\<close>

definition budget :: "int \<Rightarrow> js_number \<Rightarrow> js_number" where
  "budget command maxTries = (if command = 255 then Finite 1 0 else maxTries)"

definition dataList_item ::
  "'p writer \<Rightarrow> int \<Rightarrow> js_number \<Rightarrow> nat \<Rightarrow> 'p \<Rightarrow> 'p sender
     \<Rightarrow> (settled option \<times> 'p sender) option" where
  "dataList_item wp command maxTries i d st =
     (let tries = Finite 1 0;
          maxTries' = budget command maxTries
      in while_tries wp i d tries maxTries' None st)"

text \<open>
  What \<open>sendData\<close> gives its caller: it returns, it throws, or it waits for ever for a
  promise that is never settled.
\<close>

datatype send_result = Success | Failure DeviceError | Pending

text \<open>
  The loop \<open>for (const i of dataList)\<close>. The value caught is a \<open>DeviceError\<close> object,
  hence truthy, and is thrown again as it is. \<open>None\<close>: a retry loop does not end.
\<close>

fun for_dataList ::
  "'p writer \<Rightarrow> int \<Rightarrow> js_number \<Rightarrow> nat \<Rightarrow> 'p list \<Rightarrow> 'p sender
     \<Rightarrow> (send_result \<times> 'p sender) option" where
  "for_dataList wp command maxTries i [] st = Some (Success, st)"
| "for_dataList wp command maxTries i (d # ds) st =
     (case dataList_item wp command maxTries i d st of
        None \<Rightarrow> None
      | Some (Some Resolved, st') \<Rightarrow> for_dataList wp command maxTries (Suc i) ds st'
      | Some (Some (Rejected e), st') \<Rightarrow> Some (Failure e, st')
      | Some (None, st') \<Rightarrow> Some (Pending, st'))"

text \<open>
  \<open>sendData\<close> with the awaited call as an argument, and \<open>sendData\<close> itself, on a
  connection that is idle when the operation starts. The encoder \<open>xmodemEncode\<close> is not
  among the sources and is a parameter; \<open>maxTries\<close> is any JavaScript number (its default
  is \<open>Finite 5 0\<close>), \<open>command\<close> is only compared with 255 and is an integer.
\<close>

definition sendData_with ::
  "'p writer \<Rightarrow> (string \<Rightarrow> int \<Rightarrow> PacketVersion \<Rightarrow> 'p list) \<Rightarrow> int \<Rightarrow> string
     \<Rightarrow> PacketVersion \<Rightarrow> js_number \<Rightarrow> (send_result \<times> 'p sender) option" where
  "sendData_with wp xmodemEncode command data version maxTries =
     (let packetsList = xmodemEncode data command version
      in for_dataList wp command maxTries 0 packetsList start)"

definition sendData ::
  "config \<Rightarrow> (string \<Rightarrow> int \<Rightarrow> PacketVersion \<Rightarrow> 'p list) \<Rightarrow> connection \<Rightarrow> int \<Rightarrow> string
     \<Rightarrow> PacketVersion \<Rightarrow> js_number \<Rightarrow> (send_result \<times> 'p sender) option" where
  "sendData cfg xmodemEncode connection command data version maxTries =
     sendData_with (writePacket_on cfg connection version) xmodemEncode command data version
       maxTries"

section \<open>Reading the record of a send operation\<close>

text \<open>The number of invocations that ended with an acknowledgment.\<close>

definition acked :: "'p call list \<Rightarrow> nat" where
  "acked cs = length (filter (\<lambda>c. call_result c = Some Resolved) cs)"

text \<open>
  The invocations come in the order of the packets: the first is for packet \<open>i\<close>, an
  acknowledged one is followed by the next packet, any other by the same packet.
\<close>

fun in_order :: "nat \<Rightarrow> 'p call list \<Rightarrow> bool" where
  "in_order i [] = True"
| "in_order i (c # cs) =
     (call_index c = i \<and>
      in_order (if call_result c = Some Resolved then Suc i else i) cs)"

text \<open>The invocations made for packet \<open>k\<close>, and whether an invocation was rejected.\<close>

definition attempts_of :: "nat \<Rightarrow> 'p call list \<Rightarrow> 'p call list" where
  "attempts_of k cs = filter (\<lambda>c. call_index c = k) cs"

definition is_failure :: "'p call \<Rightarrow> bool" where
  "is_failure c = (case call_result c of Some (Rejected e) \<Rightarrow> True | _ \<Rightarrow> False)"

text \<open>
  What a send operation returned, the invocations it made and the packets it handed to
  \<open>connection.write\<close>; the two lists are empty for an operation whose retry loop does not
  end.
\<close>

definition result_of :: "(send_result \<times> 'p sender) option \<Rightarrow> send_result option" where
  "result_of r = map_option fst r"

definition calls_of :: "(send_result \<times> 'p sender) option \<Rightarrow> 'p call list" where
  "calls_of r = (case r of None \<Rightarrow> [] | Some (res, st) \<Rightarrow> calls st)"

definition written_of :: "(send_result \<times> 'p sender) option \<Rightarrow> 'p list" where
  "written_of r = (case r of None \<Rightarrow> [] | Some (res, st) \<Rightarrow> written (conn st))"

section \<open>Auxiliary notions\<close>

text \<open>
  An invocation is waiting when both listeners are registered, the timer is set and
  scheduled and the promise is pending; a connection is released when neither listener is
  registered and no timer is scheduled.
\<close>

definition waiting :: "'p world \<Rightarrow> bool" where
  "waiting s = (ack_listener s \<and> close_listener s \<and> timer_scheduled s \<and> timeout s \<noteq> None
                \<and> outcome s = None)"

definition released :: "'p world \<Rightarrow> bool" where
  "released s = (\<not> ack_listener s \<and> \<not> close_listener s \<and> \<not> timer_scheduled s)"

text \<open>
  What every state reachable from the executor satisfies: a scheduled timer has its
  handle in \<open>timeout\<close>, and a settled promise has released the connection.
\<close>

definition tidy :: "'p world \<Rightarrow> bool" where
  "tidy s = ((timer_scheduled s \<longrightarrow> timeout s \<noteq> None) \<and> (outcome s \<noteq> None \<longrightarrow> released s))"

text \<open>
  Whether \<open>tries = _maxTries; tries++\<close> leaves the loop: the incremented budget is no
  longer \<open><=\<close> the budget.
\<close>

definition fatal_ends_loop :: "js_number \<Rightarrow> bool" where
  "fatal_ends_loop maxTries' = (\<not> js_le (js_increment maxTries') maxTries')"

text \<open>
  The shape of the invocations that the retry loop adds for one packet, when it starts with
  \<open>firstError = fe\<close> and ends with \<open>r\<close>: all are for that packet, all but the last are
  rejections (not connection-fatal ones when \<open>safe\<close>), and a rejection \<open>r\<close> carries the
  first error.
\<close>

definition chunk ::
  "bool \<Rightarrow> nat \<Rightarrow> 'p \<Rightarrow> DeviceError option \<Rightarrow> settled option \<Rightarrow> 'p call list \<Rightarrow> bool" where
  "chunk safe i d fe r ext =
     ((\<forall>c\<in>set ext. call_index c = i \<and> call_packet c = d)
      \<and> (\<forall>c\<in>set (butlast ext). \<exists>e. call_result c = Some (Rejected e)
              \<and> (safe \<longrightarrow> \<not> connection_fatal e))
      \<and> (r = Some Resolved \<or> r = None \<longrightarrow> ext \<noteq> [] \<and> call_result (last ext) = r)
      \<and> (\<forall>e. r = Some (Rejected e) \<longrightarrow>
            (\<forall>c\<in>set ext. \<exists>e'. call_result c = Some (Rejected e'))
            \<and> (case fe of Some f \<Rightarrow> e = f
                | None \<Rightarrow> (case ext of [] \<Rightarrow> e = new_DeviceError WRITE_TIMEOUT
                           | c # _ \<Rightarrow> call_result c = Some (Rejected e)))))"

text \<open>
  The shape of the invocations of a whole send operation over the packets \<open>ds\<close>, the first
  of which has position \<open>i\<close>; \<open>single\<close>: at most one invocation for a packet.
\<close>

inductive trace ::
  "bool \<Rightarrow> bool \<Rightarrow> nat \<Rightarrow> 'p list \<Rightarrow> send_result \<Rightarrow> 'p call list \<Rightarrow> bool" where
  trace_done: "trace single safe i [] Success []"
| trace_next: "chunk safe i d None (Some Resolved) ch \<Longrightarrow> (single \<longrightarrow> length ch \<le> 1)
     \<Longrightarrow> trace single safe (Suc i) ds res rest \<Longrightarrow> trace single safe i (d # ds) res (ch @ rest)"
| trace_failed: "chunk safe i d None (Some (Rejected e)) ch \<Longrightarrow> (single \<longrightarrow> length ch \<le> 1)
     \<Longrightarrow> trace single safe i (d # ds) (Failure e) ch"
| trace_hung: "chunk safe i d None None ch \<Longrightarrow> (single \<longrightarrow> length ch \<le> 1)
     \<Longrightarrow> trace single safe i (d # ds) Pending ch"

section \<open>Concrete inputs\<close>

text \<open>
  A command table and timeouts, two encoders, connections that follow a script, and an
  awaited call that is rejected with the given kinds, one invocation after the other,
  before it resolves.
\<close>

definition cfg0 :: config where
  "cfg0 = \<lparr> constants_v1_ACK_TIME = 2000, constants_v2_ACK_TIME = 50,
           commands_v1_ACK_PACKET = 18, commands_v1_NACK_PACKET = 19 \<rparr>"

definition two_packets :: "string \<Rightarrow> int \<Rightarrow> PacketVersion \<Rightarrow> string list" where
  "two_packets data command version = [''A'', ''B'']"

definition no_packets :: "string \<Rightarrow> int \<Rightarrow> PacketVersion \<Rightarrow> string list" where
  "no_packets data command version = []"

definition times_out :: behaviour where
  "times_out = \<lparr> isConnected = True, events = [WriteResolved, TimeElapsed] \<rparr>"

definition acks :: behaviour where
  "acks = \<lparr> isConnected = True, events = [WriteResolved, AckEvent \<lparr> commandType = 18 \<rparr>] \<rparr>"

definition nacks :: behaviour where
  "nacks = \<lparr> isConnected = True, events = [WriteResolved, AckEvent \<lparr> commandType = 19 \<rparr>] \<rparr>"

definition closes :: behaviour where
  "closes = \<lparr> isConnected = True, events = [WriteResolved, CloseEvent False] \<rparr>"

definition always_times_out :: connection where
  "always_times_out n = times_out"

definition always_acks :: connection where
  "always_acks n = acks"

definition times_out_then_closes :: connection where
  "times_out_then_closes n = (if n = 0 then times_out else closes)"

definition nacks_then_times_out :: connection where
  "nacks_then_times_out n = (if n = 0 then nacks else times_out)"

definition acks_then_closes :: connection where
  "acks_then_closes n = (if n = 0 then acks else closes)"

definition unplugged :: behaviour where
  "unplugged = \<lparr> isConnected = False, events = [] \<rparr>"

definition closes_then_reconnects :: connection where
  "closes_then_reconnects n = (if n = 0 then closes else if n < 3 then unplugged else acks)"


section \<open>Properties\<close>

subsection \<open>One invocation of writePacket\<close>

lemma errorType_new_DeviceError: "errorType (new_DeviceError t) = t"
  by (cases t) (simp_all add: new_DeviceError_def truthy_string_def)

lemmas handler_defs =
  dataListener_def onClose_def write_catch_def timeout_callback_def clear_if_set_def
  clearTimeout_def removeListener_ack_def removeListener_close_def resolve_def reject_def

lemma run_Nil: "run cfg [] s = s"
  by (simp add: run_def)
lemma run_Cons: "run cfg (ev # evs) s = run cfg evs (deliver cfg ev s)"
  by (simp add: run_def)
lemma run_append: "run cfg (xs @ ys) s = run cfg ys (run cfg xs s)"
  by (simp add: run_def)

lemma outcome_deliver_settled: "outcome s = Some r \<Longrightarrow> outcome (deliver cfg ev s) = Some r"
  by (cases ev) (simp_all add: handler_defs Let_def)

lemma outcome_run_settled: "outcome s = Some r \<Longrightarrow> outcome (run cfg evs s) = Some r"
  by (induction evs arbitrary: s) (simp_all add: run_Nil run_Cons outcome_deliver_settled)

lemma written_deliver: "written (deliver cfg ev s) = written s"
  by (cases ev) (simp_all add: handler_defs Let_def split: option.splits)

lemma written_run: "written (run cfg evs s) = written s"
  by (induction evs arbitrary: s) (simp_all add: run_Nil run_Cons written_deliver)

lemma released_deliver: "released s \<Longrightarrow> released (deliver cfg ev s)"
  by (cases ev) (simp_all add: released_def handler_defs Let_def split: option.splits)

lemma released_run: "released s \<Longrightarrow> released (run cfg evs s)"
  by (induction evs arbitrary: s) (simp_all add: run_Nil run_Cons released_deliver)

lemma deliver_after_settlement:
  "released s \<Longrightarrow> outcome s = Some r \<Longrightarrow>
     deliver cfg ev s = s \<or> deliver cfg ev s = s\<lparr>write_pending := False\<rparr>"
  by (cases ev) (auto simp add: released_def handler_defs Let_def split: option.splits)

lemma waiting_executor: "waiting (executor cfg t p s)"
  by (simp add: waiting_def executor_def Let_def)

lemma tidy_deliver:
  "tidy s \<Longrightarrow> tidy (deliver cfg ev s)"
  by (cases ev) (auto simp add: tidy_def released_def handler_defs Let_def split: option.splits)

lemma tidy_run:
  "tidy s \<Longrightarrow> tidy (run cfg evs s)"
proof (induction evs arbitrary: s)
  case Nil then show ?case by (simp add: run_Nil)
next
  case (Cons ev evs)
  from Cons.IH [OF tidy_deliver [OF Cons.prems]] show ?case by (simp add: run_Cons)
qed

lemma waiting_WriteResolved: "waiting s \<Longrightarrow> waiting (deliver cfg WriteResolved s)"
  by (simp add: waiting_def)

lemma waiting_nack:
  "waiting s \<Longrightarrow> commandType a = commands_v1_NACK_PACKET cfg \<Longrightarrow>
   commands_v1_NACK_PACKET cfg \<noteq> commands_v1_ACK_PACKET cfg \<Longrightarrow>
   outcome (deliver cfg (AckEvent a) s) = Some (Rejected (new_DeviceError WRITE_ERROR)) \<and> released (deliver cfg (AckEvent a) s)"
  by (simp add: waiting_def released_def handler_defs Let_def)

lemma waiting_ack:
  "waiting s \<Longrightarrow> commandType a = commands_v1_ACK_PACKET cfg \<Longrightarrow>
   outcome (deliver cfg (AckEvent a) s) = Some Resolved \<and> released (deliver cfg (AckEvent a) s)"
  by (simp add: waiting_def released_def handler_defs Let_def)

lemma waiting_close:
  "waiting s \<Longrightarrow>
   outcome (deliver cfg (CloseEvent err) s) = Some (Rejected (new_DeviceError CONNECTION_CLOSED)) \<and> released (deliver cfg (CloseEvent err) s)"
  by (simp add: waiting_def released_def handler_defs Let_def)

lemma waiting_timer:
  "waiting s \<Longrightarrow>
   outcome (deliver cfg TimeElapsed s) = Some (Rejected (new_DeviceError WRITE_TIMEOUT)) \<and> released (deliver cfg TimeElapsed s)"
  by (simp add: waiting_def released_def handler_defs Let_def)

lemma waiting_write_rejected:
  "waiting s \<Longrightarrow> write_pending s \<Longrightarrow>
   outcome (deliver cfg WriteRejected s) = Some (Rejected (new_DeviceError WRITE_ERROR)) \<and> released (deliver cfg WriteRejected s)"
  by (simp add: waiting_def released_def handler_defs Let_def)

lemma waiting_unknown:
  "waiting s \<Longrightarrow> commandType a \<noteq> commands_v1_ACK_PACKET cfg \<Longrightarrow>
   commandType a \<noteq> commands_v1_NACK_PACKET cfg \<Longrightarrow>
   outcome (deliver cfg (AckEvent a) s) = None \<and> released (deliver cfg (AckEvent a) s)"
  by (simp add: waiting_def released_def handler_defs Let_def)

lemma released_pending_deliver:
  "released s \<Longrightarrow> outcome s = None \<Longrightarrow> WriteRejected \<noteq> ev \<Longrightarrow> outcome (deliver cfg ev s) = None"
  by (cases ev) (simp_all add: released_def handler_defs Let_def)

lemma released_pending_run:
  "released s \<Longrightarrow> outcome s = None \<Longrightarrow> WriteRejected \<notin> set evs \<Longrightarrow> outcome (run cfg evs s) = None"
  by (induction evs arbitrary: s) (simp_all add: run_Nil run_Cons released_pending_deliver released_deliver)

lemmas world_defs = await_writePacket_def writePacket_def executor_def run_def idle_def
lemmas input_defs = cfg0_def two_packets_def no_packets_def times_out_def acks_def nacks_def
  closes_def always_times_out_def always_acks_def times_out_then_closes_def
  nacks_then_times_out_def acks_then_closes_def

lemma waiting_run_WriteResolved: "waiting s \<Longrightarrow> waiting (run cfg (replicate n WriteResolved) s)"
  by (induction n arbitrary: s) (simp_all add: run_Nil run_Cons waiting_def)

lemma await_connected:
  "await_writePacket cfg \<lparr>isConnected = True, events = evs\<rparr> p version s =
     (let s' = run cfg evs (executor cfg (if version = v2 then constants_v2_ACK_TIME cfg
                                          else constants_v1_ACK_TIME cfg) p s)
      in (outcome s', s'))"
  by (simp add: await_writePacket_def writePacket_def Let_def)

lemma write_pending_executor: "write_pending (executor cfg t p s)"
  by (simp add: executor_def Let_def)

lemma tidy_executor: "tidy (executor cfg t p s)"
  by (simp add: tidy_def executor_def Let_def)

lemma tidy_after_events: "tidy (run cfg evs (executor cfg t p s))"
  by (intro tidy_run tidy_executor)

text \<open>
  Claim C9. When \<open>isConnected()\<close> answers false, \<open>writePacket\<close> fails at once with kind
  \<open>CONNECTION_CLOSED\<close> and leaves the state as it found it: no packet is handed to
  \<open>connection.write\<close>, no listener is registered and no timer is set.
\<close>

theorem writePacket_not_connected:
  "writePacket cfg False packet version s = (Inl (new_DeviceError CONNECTION_CLOSED), s)
   \<and> errorType (new_DeviceError CONNECTION_CLOSED) = CONNECTION_CLOSED
   \<and> await_writePacket cfg \<lparr>isConnected = False, events = evs\<rparr> packet version s
       = (Some (Rejected (new_DeviceError CONNECTION_CLOSED)), s)"
  by (simp add: writePacket_def await_writePacket_def errorType_new_DeviceError)

text \<open>
  Claim C8. The kind of a failure follows from the event that settles the invocation. With a
  command table whose NACK and ACK codes differ, and whether or not the write has
  completed before: an \<open>ack\<close> notification carrying the NACK code rejects with
  \<open>WRITE_ERROR\<close>; a \<open>close\<close> notification rejects with \<open>CONNECTION_CLOSED\<close>, with or
  without an error value; a rejected write rejects with \<open>WRITE_ERROR\<close>, and then neither
  listener is registered nor the timer scheduled. Later events do not change any of this.
\<close>

theorem writePacket_failure_kinds:
  assumes "commands_v1_NACK_PACKET cfg \<noteq> commands_v1_ACK_PACKET cfg"
    and "commandType a = commands_v1_NACK_PACKET cfg"
  shows
    "fst (await_writePacket cfg
        \<lparr>isConnected = True, events = replicate n WriteResolved @ AckEvent a # evs\<rparr> p version s)
       = Some (Rejected (new_DeviceError WRITE_ERROR))
     \<and> fst (await_writePacket cfg
        \<lparr>isConnected = True, events = replicate n WriteResolved @ CloseEvent err # evs\<rparr> p version s)
       = Some (Rejected (new_DeviceError CONNECTION_CLOSED))
     \<and> fst (await_writePacket cfg
        \<lparr>isConnected = True, events = WriteRejected # evs\<rparr> p version s)
       = Some (Rejected (new_DeviceError WRITE_ERROR))
     \<and> released (snd (await_writePacket cfg
        \<lparr>isConnected = True, events = WriteRejected # evs\<rparr> p version s))
     \<and> errorType (new_DeviceError WRITE_ERROR) = WRITE_ERROR
     \<and> errorType (new_DeviceError CONNECTION_CLOSED) = CONNECTION_CLOSED"
proof -
  let ?t = "if version = v2 then constants_v2_ACK_TIME cfg else constants_v1_ACK_TIME cfg"
  let ?s0 = "executor cfg ?t p s"
  let ?s1 = "run cfg (replicate n WriteResolved) ?s0"
  have w0: "waiting ?s0" by (rule waiting_executor)
  then have w1: "waiting ?s1" by (rule waiting_run_WriteResolved)
  have "outcome (run cfg evs (deliver cfg (AckEvent a) ?s1))
          = Some (Rejected (new_DeviceError WRITE_ERROR))"
    using waiting_nack [OF w1 assms(2) assms(1)] by (simp add: outcome_run_settled)
  moreover have "outcome (run cfg evs (deliver cfg (CloseEvent err) ?s1))
          = Some (Rejected (new_DeviceError CONNECTION_CLOSED))"
    using waiting_close [OF w1] by (simp add: outcome_run_settled)
  moreover have "outcome (run cfg evs (deliver cfg WriteRejected ?s0))
          = Some (Rejected (new_DeviceError WRITE_ERROR))"
    using waiting_write_rejected [OF w0 write_pending_executor]
    by (simp add: outcome_run_settled)
  moreover have "released (run cfg evs (deliver cfg WriteRejected ?s0))"
    using waiting_write_rejected [OF w0 write_pending_executor]
    by (simp add: released_run)
  ultimately show ?thesis
    by (simp add: await_connected Let_def run_append run_Cons errorType_new_DeviceError)
qed

theorem writePacket_failure_kinds_witness:
  "commands_v1_NACK_PACKET cfg0 \<noteq> commands_v1_ACK_PACKET cfg0
   \<and> commandType \<lparr> commandType = 19 \<rparr> = commands_v1_NACK_PACKET cfg0
   \<and> fst (await_writePacket cfg0
        \<lparr>isConnected = True,
           events = replicate 1 WriteResolved @ AckEvent \<lparr> commandType = 19 \<rparr> # [TimeElapsed]\<rparr>
        ''A'' v1 idle)
       = Some (Rejected (new_DeviceError WRITE_ERROR))
   \<and> fst (await_writePacket cfg0
        \<lparr>isConnected = True,
           events = replicate 1 WriteResolved @ CloseEvent True # [TimeElapsed]\<rparr> ''A'' v1 idle)
       = Some (Rejected (new_DeviceError CONNECTION_CLOSED))
   \<and> fst (await_writePacket cfg0
        \<lparr>isConnected = True, events = WriteRejected # [TimeElapsed]\<rparr> ''A'' v1 idle)
       = Some (Rejected (new_DeviceError WRITE_ERROR))
   \<and> released (snd (await_writePacket cfg0
        \<lparr>isConnected = True, events = WriteRejected # [TimeElapsed]\<rparr> ''A'' v1 idle))"
proof -
  have h1: "commands_v1_NACK_PACKET cfg0 \<noteq> commands_v1_ACK_PACKET cfg0"
    by (simp add: cfg0_def)
  have h2: "commandType \<lparr> commandType = 19 \<rparr> = commands_v1_NACK_PACKET cfg0"
    by (simp add: cfg0_def)
  from writePacket_failure_kinds [OF h1 h2, of 1 "[TimeElapsed]" "''A''" v1 idle True] h1 h2
  show ?thesis by simp
qed

text \<open>
  Claim C1 says that after an \<open>ack\<close> notification whose command code is neither ACK nor
  NACK the call still fails with \<open>WRITE_TIMEOUT\<close> when the timer expires. In the code
  \<open>dataListener\<close> clears the timer and removes both listeners before it looks at the code:
  unless the write itself is rejected later, the promise stays pending whatever follows,
  the expiry of the acknowledgment time included.
\<close>

theorem writePacket_unknown_ack_never_settles:
  assumes "commandType a \<noteq> commands_v1_ACK_PACKET cfg"
    and "commandType a \<noteq> commands_v1_NACK_PACKET cfg"
    and "WriteRejected \<notin> set evs"
  shows "fst (await_writePacket cfg
        \<lparr>isConnected = True, events = replicate n WriteResolved @ AckEvent a # evs\<rparr> p version s)
       = None"
proof -
  let ?t = "if version = v2 then constants_v2_ACK_TIME cfg else constants_v1_ACK_TIME cfg"
  let ?s1 = "run cfg (replicate n WriteResolved) (executor cfg ?t p s)"
  have "waiting ?s1" by (intro waiting_run_WriteResolved waiting_executor)
  from waiting_unknown [OF this assms(1,2)]
  have "outcome (run cfg evs (deliver cfg (AckEvent a) ?s1)) = None"
    using assms(3) by (simp add: released_pending_run)
  then show ?thesis by (simp add: await_connected Let_def run_append run_Cons)
qed

theorem writePacket_unknown_ack_never_settles_witness:
  "commandType \<lparr> commandType = 99 \<rparr> \<noteq> commands_v1_ACK_PACKET cfg0
   \<and> commandType \<lparr> commandType = 99 \<rparr> \<noteq> commands_v1_NACK_PACKET cfg0
   \<and> WriteRejected \<notin> set [TimeElapsed]
   \<and> fst (await_writePacket cfg0
        \<lparr>isConnected = True,
           events = replicate 1 WriteResolved @ AckEvent \<lparr> commandType = 99 \<rparr> # [TimeElapsed]\<rparr>
        ''A'' v1 idle) = None
   \<and> fst (await_writePacket cfg0
        \<lparr>isConnected = True,
           events = replicate 1 WriteResolved @ AckEvent \<lparr> commandType = 99 \<rparr> # [TimeElapsed]\<rparr>
        ''A'' v1 idle) \<noteq> Some (Rejected (new_DeviceError WRITE_TIMEOUT))"
proof -
  have h1: "commandType \<lparr> commandType = 99 \<rparr> \<noteq> commands_v1_ACK_PACKET cfg0"
    and h2: "commandType \<lparr> commandType = 99 \<rparr> \<noteq> commands_v1_NACK_PACKET cfg0"
    by (simp_all add: cfg0_def)
  have h3: "WriteRejected \<notin> set [TimeElapsed]" by simp
  from writePacket_unknown_ack_never_settles [OF h1 h2 h3, of 1 "''A''" v1 idle] h1 h2 h3
  show ?thesis by simp
qed

text \<open>
  Claim C2 says that every invocation produces exactly one outcome and that the events
  after the first one change nothing. On a connected device whose \<open>ack\<close> notification
  carries the unknown code 99, the listeners are removed and the timer is cleared, yet
  there is no outcome at all, neither at once nor after the acknowledgment time, a close
  and a late ACK; and a rejection of the write after that notification does settle the
  promise.
\<close>

theorem writePacket_unknown_ack_no_outcome:
  "fst (await_writePacket cfg0
      \<lparr>isConnected = True,
         events = [WriteResolved, AckEvent \<lparr> commandType = 99 \<rparr>, TimeElapsed, CloseEvent False,
                   AckEvent \<lparr> commandType = 18 \<rparr>]\<rparr> ''A'' v1 idle) = None
   \<and> released (snd (await_writePacket cfg0
      \<lparr>isConnected = True,
         events = [WriteResolved, AckEvent \<lparr> commandType = 99 \<rparr>, TimeElapsed, CloseEvent False,
                   AckEvent \<lparr> commandType = 18 \<rparr>]\<rparr> ''A'' v1 idle))
   \<and> fst (await_writePacket cfg0
      \<lparr>isConnected = True, events = [AckEvent \<lparr> commandType = 99 \<rparr>]\<rparr> ''A'' v1 idle) = None
   \<and> fst (await_writePacket cfg0
      \<lparr>isConnected = True, events = [AckEvent \<lparr> commandType = 99 \<rparr>, WriteRejected]\<rparr>
      ''A'' v1 idle) = Some (Rejected (new_DeviceError WRITE_ERROR))"
  by (simp add: world_defs cfg0_def released_def handler_defs Let_def)

subsection \<open>JavaScript numbers\<close>

declare bit_length.simps [simp del]

lemma js_le_integers: "js_le (Finite a 0) (Finite b 0) = (a \<le> b)"
  by simp

lemma js_increment_integer:
  "\<bar>k + 1\<bar> \<le> 2 ^ 53 \<Longrightarrow> js_increment (Finite k 0) = Finite (k + 1) 0"
  by (simp add: round_to_double_def)

lemma fatal_ends_loop_integer:
  assumes "- (2 ^ 53) - 1 \<le> n" and "n < 2 ^ 53"
  shows "fatal_ends_loop (Finite n 0)"
proof -
  from assms have "\<bar>n + 1\<bar> \<le> 2 ^ 53" by simp
  then have "js_increment (Finite n 0) = Finite (n + 1) 0" by (rule js_increment_integer)
  then show ?thesis by (simp add: fatal_ends_loop_def del: js_increment.simps)
qed

subsection \<open>The retry loop and the loop over the packets\<close>

lemma attempt_calls:
  assumes "attempt wp i d st = (r, st')"
  shows "\<exists>c. calls st' = calls st @ [c] \<and> call_index c = i \<and> call_packet c = d
            \<and> call_result c = r"
proof -
  obtain w where "wp (length (calls st)) d (conn st) = (r, w)"
    and "st' = \<lparr> conn = w, calls = calls st @ [\<lparr> call_index = i, call_packet = d,
            call_wrote = (written w \<noteq> written (conn st)), call_result = r \<rparr>] \<rparr>"
    using assms by (auto simp add: attempt_def Let_def split: prod.splits)
  then show ?thesis by simp
qed

lemma chunk_Cons:
  assumes "chunk safe i d (Some (case fe of None \<Rightarrow> e | Some f \<Rightarrow> f)) r ext"
    and "call_index c = i" "call_packet c = d" "call_result c = Some (Rejected e)"
    and "ext \<noteq> [] \<longrightarrow> (safe \<longrightarrow> \<not> connection_fatal e)"
  shows "chunk safe i d fe r (c # ext)"
  using assms by (auto simp add: chunk_def split: option.splits)

lemma while_tries_calls:
  assumes run: "while_tries wp i d tries mx fe st = Some y"
  shows "\<exists>ext. calls (snd y) = calls st @ ext \<and> chunk (fatal_ends_loop mx) i d fe (fst y) ext
      \<and> (\<not> js_le tries mx \<longrightarrow> ext = [])"
proof (rule while_tries.raw_induct [where P = "\<lambda>wp i d tries mx fe st y.
    \<exists>ext. calls (snd y) = calls st @ ext \<and> chunk (fatal_ends_loop mx) i d fe (fst y) ext
      \<and> (\<not> js_le tries mx \<longrightarrow> ext = [])", OF _ run], goal_cases)
  case (1 f wp i d tries mx fe st y)
  show ?case
  proof (cases "js_le tries mx")
    case False
    with "1"(2) show ?thesis
      by (auto simp add: chunk_def split: option.splits)
  next
    case True
    obtain r1 st1 where a: "attempt wp i d st = (r1, st1)"
      by (cases "attempt wp i d st")
    from attempt_calls [OF a] obtain c where c:
      "calls st1 = calls st @ [c]" "call_index c = i" "call_packet c = d" "call_result c = r1"
      by blast
    show ?thesis
    proof (cases r1)
      case None
      with True a "1"(2) have "y = (None, st1)" by simp
      with c None True show ?thesis
        by (intro exI [of _ "[c]"]) (simp add: chunk_def)
    next
      case (Some x)
      show ?thesis
      proof (cases x)
        case Resolved
        with Some True a "1"(2) have "y = (Some Resolved, st1)" by simp
        with c Some Resolved True show ?thesis
          by (intro exI [of _ "[c]"]) (simp add: chunk_def)
      next
        case (Rejected e)
        let ?t = "js_increment (if connection_fatal e then mx else tries)"
        let ?fe = "(case fe of None \<Rightarrow> Some e | Some f \<Rightarrow> Some f)"
        from Some Rejected True a "1"(2)
        have rec: "f wp i d ?t mx ?fe st1 = Some y" by simp
        from "1"(1) [OF rec]
        obtain ext where ext: "calls (snd y) = calls st1 @ ext"
          "chunk (fatal_ends_loop mx) i d ?fe (fst y) ext"
          "\<not> js_le ?t mx \<longrightarrow> ext = []"
          by blast
        have fe: "?fe = Some (case fe of None \<Rightarrow> e | Some f \<Rightarrow> f)"
          by (simp split: option.splits)
        have nf: "ext \<noteq> [] \<longrightarrow> (fatal_ends_loop mx \<longrightarrow> \<not> connection_fatal e)"
          using ext(3) by (auto simp add: fatal_ends_loop_def)
        have "chunk (fatal_ends_loop mx) i d fe (fst y) (c # ext)"
          using ext(2) c(2,3,4) Some Rejected nf unfolding fe
          by (intro chunk_Cons) simp_all
        with ext(1) c(1) True show ?thesis
          by (intro exI [of _ "c # ext"]) simp
      qed
    qed
  qed
qed

lemma while_tries_once:
  "\<exists>r st'. while_tries wp i d (Finite 1 0) (Finite 1 0) fe st = Some (r, st')
      \<and> length (calls st') = Suc (length (calls st))"
proof -
  obtain r1 st1 where a: "attempt wp i d st = (r1, st1)"
    by (cases "attempt wp i d st")
  from attempt_calls [OF a] have l: "length (calls st1) = Suc (length (calls st))" by auto
  have two: "js_increment (Finite 1 0) = Finite 2 0"
    by (simp add: round_to_double_def)
  have stop: "\<And>fe'. while_tries wp i d (Finite 2 0) (Finite 1 0) fe' st1
       = Some (Some (Rejected (case fe' of None \<Rightarrow> new_DeviceError WRITE_TIMEOUT | Some f \<Rightarrow> f)), st1)"
    by (subst while_tries.simps) (simp split: option.splits)
  show ?thesis
  proof (cases r1)
    case None
    with a l show ?thesis by (subst while_tries.simps) simp
  next
    case (Some x)
    with a l two stop show ?thesis
      by (cases x) (subst while_tries.simps, simp)+
  qed
qed

lemma dataList_item_calls:
  assumes "dataList_item wp command maxTries i d st = Some (r, st')"
  shows "\<exists>ext. calls st' = calls st @ ext
      \<and> chunk (fatal_ends_loop (budget command maxTries)) i d None r ext
      \<and> (command = 255 \<longrightarrow> length ext \<le> 1)"
proof -
  from assms
  have w: "while_tries wp i d (Finite 1 0) (budget command maxTries) None st = Some (r, st')"
    by (simp add: dataList_item_def Let_def)
  from while_tries_calls [OF w] obtain ext where ext:
    "calls st' = calls st @ ext" "chunk (fatal_ends_loop (budget command maxTries)) i d None r ext"
    by auto
  have "command = 255 \<longrightarrow> length ext \<le> 1"
  proof
    assume "command = 255"
    with w have "while_tries wp i d (Finite 1 0) (Finite 1 0) None st = Some (r, st')"
      by (simp add: budget_def)
    with while_tries_once [of wp i d None st]
    have "length (calls st') = Suc (length (calls st))" by auto
    with ext(1) show "length ext \<le> 1" by simp
  qed
  with ext show ?thesis by blast
qed

lemma for_dataList_calls:
  "for_dataList wp command maxTries i ds st = Some (res, st') \<Longrightarrow>
   \<exists>ext. calls st' = calls st @ ext
      \<and> trace (command = 255) (fatal_ends_loop (budget command maxTries)) i ds res ext"
proof (induction ds arbitrary: i st)
  case Nil
  then show ?case by (auto intro: trace_done)
next
  case (Cons d ds)
  let ?single = "command = 255"
  let ?safe = "fatal_ends_loop (budget command maxTries)"
  from Cons.prems obtain r st1 where item: "dataList_item wp command maxTries i d st = Some (r, st1)"
    by (cases "dataList_item wp command maxTries i d st") auto
  from dataList_item_calls [OF item] obtain ch where ch:
    "calls st1 = calls st @ ch" "chunk ?safe i d None r ch" "?single \<longrightarrow> length ch \<le> 1"
    by blast
  show ?case
  proof (cases r)
    case None
    with Cons.prems item have "res = Pending" "st' = st1" by simp_all
    with ch None show ?thesis by (auto intro: trace_hung)
  next
    case (Some x)
    show ?thesis
    proof (cases x)
      case Resolved
      with Some Cons.prems item
      have "for_dataList wp command maxTries (Suc i) ds st1 = Some (res, st')"
        by simp
      from Cons.IH [OF this] obtain rest where rest:
        "calls st' = calls st1 @ rest" "trace ?single ?safe (Suc i) ds res rest"
        by blast
      from ch(2,3) rest(2) Some Resolved have "trace ?single ?safe i (d # ds) res (ch @ rest)"
        by (auto intro: trace_next)
      with ch(1) rest(1) show ?thesis
        by (intro exI [of _ "ch @ rest"]) simp
    next
      case (Rejected e)
      with Some Cons.prems item have "res = Failure e" "st' = st1" by simp_all
      with ch Some Rejected show ?thesis by (auto intro: trace_failed)
    qed
  qed
qed

lemma sendData_with_calls:
  assumes "sendData_with wp xmodemEncode command data version maxTries = Some (res, st)"
  shows "trace (command = 255) (fatal_ends_loop (budget command maxTries)) 0
           (xmodemEncode data command version) res (calls st)"
  using for_dataList_calls [of wp command maxTries 0
      "xmodemEncode data command version" start res st] assms
  by (auto simp add: sendData_with_def Let_def start_def)

lemma in_order_same:
  "\<forall>c\<in>set cs. call_index c = i \<Longrightarrow> \<forall>c\<in>set (butlast cs). call_result c \<noteq> Some Resolved \<Longrightarrow> in_order i cs"
  by (induction cs) (auto split: if_splits)

lemma acked_Nil: "acked [] = 0"
  by (simp add: acked_def)

lemma acked_append: "acked (xs @ ys) = acked xs + acked ys"
  by (simp add: acked_def)

lemma in_order_append: "in_order i (xs @ ys) = (in_order i xs \<and> in_order (i + acked xs) ys)"
  by (induction xs arbitrary: i) (auto simp add: acked_def)

lemma acked_butlast_none:
  "\<forall>c\<in>set (butlast cs). call_result c \<noteq> Some Resolved \<Longrightarrow>
     acked cs = (if cs \<noteq> [] \<and> call_result (last cs) = Some Resolved then 1 else 0)"
  by (induction cs) (auto simp add: acked_def split: if_splits)

lemma chunk_in_order: "chunk safe i d fe r ch \<Longrightarrow> in_order i ch"
  by (rule in_order_same) (auto simp add: chunk_def)

lemma chunk_acked: "chunk safe i d fe r ch \<Longrightarrow> acked ch = (if r = Some Resolved then 1 else 0)"
proof -
  assume c: "chunk safe i d fe r ch"
  then have "\<forall>c\<in>set (butlast ch). call_result c \<noteq> Some Resolved"
    by (auto simp add: chunk_def)
  from acked_butlast_none [OF this]
  have a: "acked ch = (if ch \<noteq> [] \<and> call_result (last ch) = Some Resolved then 1 else 0)" .
  show ?thesis
  proof (cases "r = Some Resolved")
    case True
    with c a show ?thesis by (simp add: chunk_def)
  next
    case False
    have "\<not> (ch \<noteq> [] \<and> call_result (last ch) = Some Resolved)"
    proof (cases r)
      case None
      with c show ?thesis by (simp add: chunk_def)
    next
      case (Some x)
      with False obtain e where "r = Some (Rejected e)" by (cases x) auto
      with c have "\<forall>c\<in>set ch. \<exists>e'. call_result c = Some (Rejected e')"
        by (simp add: chunk_def)
      then show ?thesis using last_in_set [of ch] by fastforce
    qed
    with a False show ?thesis by simp
  qed
qed

lemma trace_in_order: "trace single safe i ds res ext \<Longrightarrow> in_order i ext"
  by (induction rule: trace.induct)
     (auto simp add: in_order_append chunk_acked dest: chunk_in_order)

lemma trace_acked:
  "trace single safe i ds res ext \<Longrightarrow>
     (res = Success \<longrightarrow> acked ext = length ds) \<and> (res \<noteq> Success \<longrightarrow> acked ext < length ds)"
  by (induction rule: trace.induct) (auto simp add: acked_Nil acked_append chunk_acked)

lemma trace_packets:
  "trace single safe i ds res ext \<Longrightarrow>
     \<forall>c\<in>set ext. i \<le> call_index c \<and> call_index c < i + length ds \<and> call_packet c = ds ! (call_index c - i)"
proof (induction rule: trace.induct)
  case (trace_next safe i d ch single ds res rest)
  then show ?case by (auto simp add: chunk_def nth_Cons')
qed (auto simp add: chunk_def)

lemma in_order_bound: "in_order i cs \<Longrightarrow> \<forall>c\<in>set cs. i \<le> call_index c \<and> call_index c \<le> i + acked cs"
  by (induction cs arbitrary: i) (fastforce simp add: acked_def split: if_splits)+

lemma in_order_predecessor:
  "in_order j cs \<Longrightarrow> n < length cs \<Longrightarrow> call_index (cs ! n) = Suc k \<Longrightarrow> j \<le> k \<Longrightarrow>
     \<exists>m<n. call_index (cs ! m) = k \<and> call_result (cs ! m) = Some Resolved"
proof (induction cs arbitrary: j n)
  case Nil
  then show ?case by simp
next
  case (Cons c cs)
  show ?case
  proof (cases n)
    case 0
    with Cons.prems show ?thesis by simp
  next
    case (Suc n')
    show ?thesis
    proof (cases "call_result c = Some Resolved")
      case True
      show ?thesis
      proof (cases "j = k")
        case True
        with \<open>call_result c = Some Resolved\<close> Cons.prems Suc show ?thesis
          by (intro exI [of _ 0]) simp
      next
        case False
        with True Cons.prems Suc
        have "\<exists>m<n'. call_index (cs ! m) = k \<and> call_result (cs ! m) = Some Resolved"
          by (intro Cons.IH [of "Suc j"]) simp_all
        then obtain m where "m < n'" "call_index (cs ! m) = k" "call_result (cs ! m) = Some Resolved"
          by blast
        with Suc show ?thesis by (intro exI [of _ "Suc m"]) simp
      qed
    next
      case False
      with Cons.prems Suc
      have "\<exists>m<n'. call_index (cs ! m) = k \<and> call_result (cs ! m) = Some Resolved"
        by (intro Cons.IH [of j]) simp_all
      then obtain m where "m < n'" "call_index (cs ! m) = k" "call_result (cs ! m) = Some Resolved"
        by blast
      with Suc show ?thesis by (intro exI [of _ "Suc m"]) simp
    qed
  qed
qed

lemma attempts_of_append: "attempts_of k (xs @ ys) = attempts_of k xs @ attempts_of k ys"
  by (simp add: attempts_of_def)

lemma attempts_of_same: "\<forall>c\<in>set cs. call_index c = i \<Longrightarrow> attempts_of k cs = (if k = i then cs else [])"
  by (induction cs) (auto simp add: attempts_of_def)

lemma attempts_of_none: "\<forall>c\<in>set cs. call_index c \<noteq> k \<Longrightarrow> attempts_of k cs = []"
  by (induction cs) (auto simp add: attempts_of_def)

lemma chunk_attempts: "chunk safe i d fe r ch \<Longrightarrow> attempts_of k ch = (if k = i then ch else [])"
  by (rule attempts_of_same) (simp add: chunk_def)

lemma trace_attempts_before: "trace single safe i ds res ext \<Longrightarrow> k < i \<Longrightarrow> attempts_of k ext = []"
  by (rule attempts_of_none) (use trace_packets in fastforce)

lemma trace_per_packet:
  "trace single safe i ds res ext \<Longrightarrow> single \<Longrightarrow> length (attempts_of k ext) \<le> 1"
proof (induction rule: trace.induct)
  case (trace_next safe i d ch single ds res rest)
  show ?case
  proof (cases "k = i")
    case True
    with trace_next.hyps(3) have "attempts_of k rest = []"
      by (intro trace_attempts_before [of single safe "Suc i" ds res]) simp_all
    with trace_next.hyps(1,2) trace_next.prems True show ?thesis
      by (simp add: attempts_of_append chunk_attempts)
  next
    case False
    with trace_next show ?thesis by (simp add: attempts_of_append chunk_attempts)
  qed
qed (auto simp add: attempts_of_def intro: le_trans [OF length_filter_le])


lemma trace_no_attempt:
  "trace single safe i ds res ext \<Longrightarrow> acked ext < length ds \<Longrightarrow>
   attempts_of (i + acked ext) ext = [] \<Longrightarrow> res = Failure (new_DeviceError WRITE_TIMEOUT)"
proof (induction rule: trace.induct)
  case (trace_next safe i d ch single ds res rest)
  then show ?case
    by (simp add: acked_append chunk_acked attempts_of_append chunk_attempts)
next
  case (trace_failed safe i d e ch single ds)
  then show ?case
    by (simp add: chunk_acked chunk_attempts) (simp add: chunk_def)
next
  case (trace_hung safe i d ch single ds)
  then show ?case
    by (simp add: chunk_acked chunk_attempts) (simp add: chunk_def)
qed (simp add: acked_Nil)


lemma trace_all_failed:
  "trace single safe i ds res ext \<Longrightarrow> attempts_of k ext \<noteq> [] \<Longrightarrow>
   \<forall>c\<in>set (attempts_of k ext). is_failure c \<Longrightarrow>
     \<exists>e. call_result (hd (attempts_of k ext)) = Some (Rejected e) \<and> res = Failure e"
proof (induction rule: trace.induct)
  case (trace_next safe i d ch single ds res rest)
  from trace_next.hyps(1) have ch: "ch \<noteq> []" "call_result (last ch) = Some Resolved"
    by (simp_all add: chunk_def)
  have "k \<noteq> i"
  proof
    assume "k = i"
    with trace_next.hyps(1) trace_next.prems(2) have "\<forall>c\<in>set ch. is_failure c"
      by (simp add: attempts_of_append chunk_attempts)
    with ch(1) have "is_failure (last ch)" by simp
    with ch(2) show False by (simp add: is_failure_def)
  qed
  with trace_next show ?case by (simp add: attempts_of_append chunk_attempts)
next
  case (trace_failed safe i d e ch single ds)
  then show ?case
    by (cases ch) (auto simp add: chunk_attempts split: if_splits, auto simp add: chunk_def)
next
  case (trace_hung safe i d ch single ds)
  from trace_hung.hyps(1) have ch: "ch \<noteq> []" "call_result (last ch) = None"
    by (simp_all add: chunk_def)
  from trace_hung.hyps(1) trace_hung.prems(1) have "attempts_of k ch = ch"
    by (simp add: chunk_attempts split: if_splits)
  with trace_hung.prems(2) ch(1) have "is_failure (last ch)" by simp
  with ch(2) show ?case by (simp add: is_failure_def)
qed (simp add: attempts_of_def)

lemma in_order_sorted: "in_order j cs \<Longrightarrow> sorted (map call_index cs)"
proof (induction cs arbitrary: j)
  case Nil
  then show ?case by simp
next
  case (Cons c cs)
  let ?j = "if call_result c = Some Resolved then Suc j else j"
  from Cons.prems have io: "in_order ?j cs" and c: "call_index c = j" by simp_all
  from in_order_bound [OF io] have "\<forall>x\<in>set cs. j \<le> call_index x" by (auto split: if_splits)
  with Cons.IH [OF io] c show ?case by simp
qed

lemma in_order_abort:
  "in_order j cs \<Longrightarrow> \<forall>c\<in>set cs. call_index c = k \<longrightarrow> call_result c \<noteq> Some Resolved \<Longrightarrow>
     j \<le> k \<Longrightarrow> \<forall>c\<in>set cs. call_index c \<le> k"
  by (induction cs arbitrary: j) (auto split: if_splits)

lemma while_tries_returns:
  assumes "n < 2 ^ 53"
  shows "1 \<le> k \<Longrightarrow> while_tries wp i d (Finite k 0) (Finite n 0) fe st \<noteq> None"
proof (induction "nat (n + 1 - k)" arbitrary: k fe st rule: less_induct)
  case less
  show ?case
  proof (cases "k \<le> n")
    case False
    then show ?thesis
      by (subst while_tries.simps) (simp split: option.splits)
  next
    case True
    obtain r1 st1 where a: "attempt wp i d st = (r1, st1)"
      by (cases "attempt wp i d st")
    show ?thesis
    proof (cases r1)
      case None
      with a True show ?thesis by (subst while_tries.simps) simp
    next
      case (Some x)
      show ?thesis
      proof (cases x)
        case Resolved
        with Some a True show ?thesis by (subst while_tries.simps) simp
      next
        case (Rejected e)
        define k' where "k' = (if connection_fatal e then n else k) + 1"
        from True less.prems assms have b: "\<bar>k' - 1 + 1\<bar> \<le> 2 ^ 53"
          by (simp add: k'_def)
        have "js_increment (Finite (k' - 1) 0) = Finite (k' - 1 + 1) 0"
          using b by (rule js_increment_integer)
        then have inc: "js_increment (if connection_fatal e then Finite n 0 else Finite k 0)
            = Finite k' 0"
          by (cases "connection_fatal e") (simp_all add: k'_def del: js_increment.simps)
        from True less.prems have "nat (n + 1 - k') < nat (n + 1 - k)" "1 \<le> k'"
          by (simp_all add: k'_def)
        from less.hyps [OF this]
        have "while_tries wp i d (Finite k' 0) (Finite n 0)
                (case fe of None \<Rightarrow> Some e | Some f \<Rightarrow> Some f) st1 \<noteq> None" .
        with Some Rejected a True inc show ?thesis
          by (subst while_tries.simps) (simp del: js_increment.simps)
      qed
    qed
  qed
qed

lemma dataList_item_returns:
  assumes "budget command maxTries = Finite n 0" and "n < 2 ^ 53"
  shows "dataList_item wp command maxTries i d st \<noteq> None"
  using while_tries_returns [OF assms(2), of 1 wp i d None st] assms(1)
  by (simp add: dataList_item_def Let_def)

lemma for_dataList_returns:
  assumes "budget command maxTries = Finite n 0" and "n < 2 ^ 53"
  shows "for_dataList wp command maxTries i ds st \<noteq> None"
proof (induction ds arbitrary: i st)
  case Nil
  then show ?case by simp
next
  case (Cons d ds)
  from dataList_item_returns [OF assms, of wp i d st]
  obtain r st1 where "dataList_item wp command maxTries i d st = Some (r, st1)" by auto
  with Cons.IH [of "Suc i" st1] show ?case
    by (cases r) (auto split: settled.splits)
qed

lemma sendData_with_returns:
  assumes "budget command maxTries = Finite n 0" and "n < 2 ^ 53"
  shows "sendData_with wp xmodemEncode command data version maxTries \<noteq> None"
  using for_dataList_returns [OF assms] by (simp add: sendData_with_def Let_def)

lemma not_fatal_WRITE_TIMEOUT: "\<not> connection_fatal (new_DeviceError WRITE_TIMEOUT)"
  by (simp add: connection_fatal_def errorType_new_DeviceError)

lemma always_time_out_connected:
  assumes "\<forall>n (d::'p) (w::'p world). fst (await_writePacket cfg (connection n) d version w)
             = Some (Rejected (new_DeviceError WRITE_TIMEOUT))"
  shows "isConnected (connection n)"
proof (rule ccontr)
  assume "\<not> isConnected (connection n)"
  then have "fst (await_writePacket cfg (connection n) (undefined::'p) version idle)
      = Some (Rejected (new_DeviceError CONNECTION_CLOSED))"
    by (simp add: await_writePacket_def writePacket_def)
  with assms have "new_DeviceError WRITE_TIMEOUT = new_DeviceError CONNECTION_CLOSED"
    by simp
  then have "errorType (new_DeviceError WRITE_TIMEOUT) = errorType (new_DeviceError CONNECTION_CLOSED)"
    by simp
  then show False by (simp add: errorType_new_DeviceError)
qed

lemma written_await_connected:
  "isConnected b \<Longrightarrow>
     written (snd (await_writePacket cfg b d version w)) = written w @ [d]"
  by (simp add: await_writePacket_def writePacket_def Let_def written_run executor_def)

lemma attempt_time_out:
  fixes st :: "'p sender"
  assumes "\<forall>n (d::'p) (w::'p world). fst (await_writePacket cfg (connection n) d version w)
             = Some (Rejected (new_DeviceError WRITE_TIMEOUT))"
  shows "\<exists>st1. attempt (writePacket_on cfg connection version) i d st
            = (Some (Rejected (new_DeviceError WRITE_TIMEOUT)), st1)
      \<and> calls st1 = calls st @ [\<lparr> call_index = i, call_packet = d, call_wrote = True,
              call_result = Some (Rejected (new_DeviceError WRITE_TIMEOUT)) \<rparr>]
      \<and> written (conn st1) = written (conn st) @ [d]"
proof -
  let ?b = "connection (length (calls st))"
  obtain r w where aw: "await_writePacket cfg ?b d version (conn st) = (r, w)"
    by (cases "await_writePacket cfg ?b d version (conn st)")
  with assms have r: "r = Some (Rejected (new_DeviceError WRITE_TIMEOUT))"
    by (metis fst_conv)
  from written_await_connected [where b = ?b and cfg = cfg and d = d and version = version
      and w = "conn st", OF always_time_out_connected [OF assms]] aw
  have w: "written w = written (conn st) @ [d]" by simp
  from aw r w show ?thesis
    by (simp add: attempt_def writePacket_on_def Let_def)
qed

lemma while_tries_always_time_out:
  fixes st :: "'p sender"
  assumes H: "\<forall>n (d::'p) (w::'p world). fst (await_writePacket cfg (connection n) d version w)
             = Some (Rejected (new_DeviceError WRITE_TIMEOUT))"
    and n: "n < 2 ^ 53"
  shows "1 \<le> k \<Longrightarrow> k \<le> n + 1 \<Longrightarrow>
    \<exists>st'. while_tries (writePacket_on cfg connection version) i d (Finite k 0) (Finite n 0) fe st =
        Some (Some (Rejected (case fe of None \<Rightarrow> new_DeviceError WRITE_TIMEOUT | Some f \<Rightarrow> f)), st')
      \<and> calls st' = calls st @ replicate (nat (n + 1 - k))
            \<lparr> call_index = i, call_packet = d, call_wrote = True,
              call_result = Some (Rejected (new_DeviceError WRITE_TIMEOUT)) \<rparr>
      \<and> written (conn st') = written (conn st) @ replicate (nat (n + 1 - k)) d"
proof (induction "nat (n + 1 - k)" arbitrary: k fe st rule: less_induct)
  case less
  let ?e = "new_DeviceError WRITE_TIMEOUT"
  let ?c = "\<lparr> call_index = i, call_packet = d, call_wrote = True, call_result = Some (Rejected ?e) \<rparr>"
  let ?wp = "writePacket_on cfg connection version"
  show ?case
  proof (cases "k \<le> n")
    case False
    with less.prems have "k = n + 1" by simp
    then show ?thesis
      by (subst while_tries.simps) (simp split: option.splits)
  next
    case True
    from attempt_time_out [OF H, of i d st] obtain st1 where st1:
      "attempt ?wp i d st = (Some (Rejected ?e), st1)"
      "calls st1 = calls st @ [?c]" "written (conn st1) = written (conn st) @ [d]"
      by blast
    let ?fe = "case fe of None \<Rightarrow> Some ?e | Some f \<Rightarrow> Some f"
    from True less.prems n have "\<bar>k + 1\<bar> \<le> 2 ^ 53" by simp
    then have inc: "js_increment (Finite k 0) = Finite (k + 1) 0" by (rule js_increment_integer)
    from True less.prems have m: "nat (n + 1 - (k + 1)) < nat (n + 1 - k)" "1 \<le> k + 1" "k + 1 \<le> n + 1"
      by simp_all
    from less.hyps [OF m, of ?fe st1]
    obtain st' where st':
      "while_tries ?wp i d (Finite (k + 1) 0) (Finite n 0) ?fe st1 =
        Some (Some (Rejected (case ?fe of None \<Rightarrow> ?e | Some f \<Rightarrow> f)), st')"
      "calls st' = calls st1 @ replicate (nat (n + 1 - (k + 1))) ?c"
      "written (conn st') = written (conn st1) @ replicate (nat (n + 1 - (k + 1))) d"
      by blast
    have cnt: "nat (n + 1 - k) = Suc (nat (n + 1 - (k + 1)))"
      using True by simp
    have fe: "(case ?fe of None \<Rightarrow> ?e | Some f \<Rightarrow> f) = (case fe of None \<Rightarrow> ?e | Some f \<Rightarrow> f)"
      by (simp split: option.splits)
    have "while_tries ?wp i d (Finite k 0) (Finite n 0) fe st =
        Some (Some (Rejected (case fe of None \<Rightarrow> ?e | Some f \<Rightarrow> f)), st')"
      using True st1(1) st'(1) inc unfolding fe
      by (subst while_tries.simps) (simp add: not_fatal_WRITE_TIMEOUT del: js_increment.simps)
    with st'(2,3) st1(2,3) show ?thesis
      unfolding cnt by (intro exI [of _ st']) simp
  qed
qed

subsection \<open>The send operation\<close>

lemma calls_of_Some: "calls_of (Some (res, st)) = calls st"
  by (simp add: calls_of_def)

lemma result_of_Some: "result_of (Some (res, st)) = Some res"
  by (simp add: result_of_def)


text \<open>
  Claim C10. When the encoder produces no packet, \<open>sendData\<close> succeeds without any
  invocation of \<open>writePacket\<close> and without any write on the connection.
\<close>

theorem sendData_no_packets:
  "xmodemEncode data command version = [] \<Longrightarrow>
     sendData cfg xmodemEncode connection command data version maxTries = Some (Success, start)
     \<and> written (conn start) = [] \<and> calls start = []"
  by (simp add: sendData_def sendData_with_def start_def idle_def)

theorem sendData_no_packets_witness:
  "no_packets ''102030'' 21 v1 = []
   \<and> sendData cfg0 no_packets always_times_out 21 ''102030'' v1 (Finite 5 0) = Some (Success, start)
   \<and> written (conn (start :: string sender)) = [] \<and> calls (start :: string sender) = []"
proof -
  have h: "no_packets ''102030'' 21 v1 = []" by (simp add: no_packets_def)
  from sendData_no_packets [where xmodemEncode = no_packets and data = "''102030''"
      and command = 21 and version = v1 and cfg = cfg0 and connection = always_times_out
      and maxTries = "Finite 5 0", OF h] h
  show ?thesis by simp
qed

text \<open>
  Claim C5. With \<open>maxTries = 5\<close>, a command other than 255, at least one packet, and a
  connection on which every invocation of \<open>writePacket\<close> is rejected with
  \<open>WRITE_TIMEOUT\<close>: \<open>sendData\<close> returns; \<open>writePacket\<close> is invoked exactly five times, each
  time for the first packet, which is written five times, and \<open>sendData\<close> fails with
  \<open>WRITE_TIMEOUT\<close>; no later packet is attempted.
\<close>

theorem sendData_always_time_out:
  fixes xmodemEncode :: "string \<Rightarrow> int \<Rightarrow> PacketVersion \<Rightarrow> 'p list"
  assumes "\<forall>n (d::'p) (w::'p world). fst (await_writePacket cfg (connection n) d version w)
             = Some (Rejected (new_DeviceError WRITE_TIMEOUT))"
    and "command \<noteq> 255"
    and "xmodemEncode data command version = d # ds"
  shows "\<exists>st. sendData cfg xmodemEncode connection command data version (Finite 5 0)
           = Some (Failure (new_DeviceError WRITE_TIMEOUT), st)
     \<and> calls st = replicate 5 \<lparr> call_index = 0, call_packet = d, call_wrote = True,
                call_result = Some (Rejected (new_DeviceError WRITE_TIMEOUT)) \<rparr>
     \<and> written (conn st) = replicate 5 d"
proof -
  have "(5::int) < 2 ^ 53" by simp
  from while_tries_always_time_out [OF assms(1) this, of 1 0 d None start]
  obtain st' where
    "while_tries (writePacket_on cfg connection version) 0 d (Finite 1 0) (Finite 5 0) None start =
       Some (Some (Rejected (new_DeviceError WRITE_TIMEOUT)), st')"
    "calls st' = calls (start :: 'p sender) @ replicate (nat (5 + 1 - 1))
            \<lparr> call_index = 0, call_packet = d, call_wrote = True,
              call_result = Some (Rejected (new_DeviceError WRITE_TIMEOUT)) \<rparr>"
    "written (conn st') = written (conn (start :: 'p sender)) @ replicate (nat (5 + 1 - 1)) d"
    by auto
  with assms(2,3) show ?thesis
    by (simp add: sendData_def sendData_with_def dataList_item_def budget_def Let_def
        start_def idle_def)
qed

theorem sendData_always_time_out_witness:
  "(\<forall>n (d::string) w. fst (await_writePacket cfg0 (always_times_out n) d v1 w)
             = Some (Rejected (new_DeviceError WRITE_TIMEOUT)))
   \<and> (21::int) \<noteq> 255
   \<and> two_packets ''102030'' 21 v1 = ''A'' # [''B'']
   \<and> result_of (sendData cfg0 two_packets always_times_out 21 ''102030'' v1 (Finite 5 0))
           = Some (Failure (new_DeviceError WRITE_TIMEOUT))
   \<and> written_of (sendData cfg0 two_packets always_times_out 21 ''102030'' v1 (Finite 5 0))
           = [''A'', ''A'', ''A'', ''A'', ''A'']"
proof -
  have h1: "\<forall>n (d::string) w. fst (await_writePacket cfg0 (always_times_out n) d v1 w)
             = Some (Rejected (new_DeviceError WRITE_TIMEOUT))"
    by (simp add: world_defs input_defs handler_defs Let_def split: option.splits)
  have h2: "(21::int) \<noteq> 255" by simp
  have h3: "two_packets ''102030'' 21 v1 = ''A'' # [''B'']" by (simp add: two_packets_def)
  have five: "replicate 5 ''A'' = [''A'', ''A'', ''A'', ''A'', ''A'']" by code_simp
  from sendData_always_time_out [where cfg = cfg0 and connection = always_times_out
      and version = v1 and command = 21 and xmodemEncode = two_packets and data = "''102030''"
      and d = "''A''" and ds = "[''B'']", OF h1 h2 h3] h1 h2 h3 five
  show ?thesis by (auto simp add: result_of_def written_of_def)
qed

text \<open>
  Claim C6. With command 255 \<open>sendData\<close> returns (or waits for a promise that is never
  settled) whatever number \<open>maxTries\<close> is, and there is at most one invocation of
  \<open>writePacket\<close> for each packet.
\<close>

theorem sendData_command_255_single_attempt:
  "(\<exists>res st. sendData cfg xmodemEncode connection 255 data version maxTries = Some (res, st))
   \<and> (\<forall>res st. sendData cfg xmodemEncode connection 255 data version maxTries = Some (res, st)
          \<longrightarrow> length (attempts_of k (calls st)) \<le> 1)"
proof -
  have "budget 255 maxTries = Finite 1 0" "(1::int) < 2 ^ 53" by (simp_all add: budget_def)
  from sendData_with_returns [OF this]
  have "\<exists>res st. sendData cfg xmodemEncode connection 255 data version maxTries = Some (res, st)"
    by (simp add: sendData_def)
  moreover have "\<forall>res st. sendData cfg xmodemEncode connection 255 data version maxTries
      = Some (res, st) \<longrightarrow> length (attempts_of k (calls st)) \<le> 1"
  proof (intro allI impI)
    fix res st
    assume "sendData cfg xmodemEncode connection 255 data version maxTries = Some (res, st)"
    then have "sendData_with (writePacket_on cfg connection version) xmodemEncode 255 data
        version maxTries = Some (res, st)"
      by (simp add: sendData_def)
    from sendData_with_calls [OF this]
    show "length (attempts_of k (calls st)) \<le> 1"
      by (rule trace_per_packet) simp
  qed
  ultimately show ?thesis by blast
qed

theorem sendData_command_255_single_attempt_witness:
  "length (attempts_of 0
      (calls_of (sendData cfg0 two_packets always_times_out 255 ''102030'' v1 (Finite 5 0)))) \<le> 1
   \<and> length (calls_of (sendData cfg0 two_packets always_times_out 255 ''102030'' v1 (Finite 5 0))) = 1
   \<and> result_of (sendData cfg0 two_packets always_times_out 255 ''102030'' v1 (Finite 5 0))
       = Some (Failure (new_DeviceError WRITE_TIMEOUT))
   \<and> length (attempts_of 0
      (calls_of (sendData cfg0 two_packets always_times_out 255 ''102030'' v1 PosInfinity))) \<le> 1"
proof -
  let ?r = "sendData cfg0 two_packets always_times_out 255 ''102030'' v1 (Finite 5 0)"
  let ?s = "sendData cfg0 two_packets always_times_out 255 ''102030'' v1 PosInfinity"
  have a: "length (calls_of ?r) = 1" by code_simp
  have b: "result_of ?r = Some (Failure (new_DeviceError WRITE_TIMEOUT))" by code_simp
  from sendData_command_255_single_attempt [of cfg0 two_packets always_times_out "''102030''" v1
      "Finite 5 0" 0]
  have c: "length (attempts_of 0 (calls_of ?r)) \<le> 1"
    by (auto simp add: calls_of_def)
  from sendData_command_255_single_attempt [of cfg0 two_packets always_times_out "''102030''" v1
      PosInfinity 0]
  have d: "length (attempts_of 0 (calls_of ?s)) \<le> 1"
    by (auto simp add: calls_of_def)
  from a b c d show ?thesis by simp
qed

text \<open>
  The order of the invocations, for every budget: they follow the encoder's list, and a
  packet is only begun after an acknowledged invocation for the packet before it.
\<close>

lemma sendData_order:
  assumes "sendData_with wp xmodemEncode command data version maxTries = Some (res, st)"
  shows "in_order 0 (calls st)
     \<and> sorted (map call_index (calls st))
     \<and> (\<forall>c\<in>set (calls st). call_index c < length (xmodemEncode data command version)
            \<and> call_packet c = xmodemEncode data command version ! call_index c)
     \<and> (\<forall>n k. n < length (calls st) \<and> call_index (calls st ! n) = Suc k
            \<longrightarrow> (\<exists>j<n. call_index (calls st ! j) = k
                       \<and> call_result (calls st ! j) = Some Resolved))
     \<and> (\<forall>k. (\<forall>c\<in>set (calls st). call_index c = k \<longrightarrow> call_result c \<noteq> Some Resolved)
            \<longrightarrow> (\<forall>c\<in>set (calls st). call_index c \<le> k))
     \<and> (res = Success \<longrightarrow> acked (calls st) = length (xmodemEncode data command version))
     \<and> (res \<noteq> Success \<longrightarrow> acked (calls st) < length (xmodemEncode data command version)
            \<and> (\<forall>c\<in>set (calls st). call_index c \<le> acked (calls st)))"
proof -
  let ?log = "calls st"
  note t = sendData_with_calls [OF assms]
  from trace_in_order [OF t] have io: "in_order 0 ?log" .
  from in_order_sorted [OF io] have so: "sorted (map call_index ?log)" .
  from trace_packets [OF t]
  have pk: "\<forall>c\<in>set ?log. call_index c < length (xmodemEncode data command version)
            \<and> call_packet c = xmodemEncode data command version ! call_index c"
    by simp
  have pre: "\<forall>n k. n < length ?log \<and> call_index (?log ! n) = Suc k
            \<longrightarrow> (\<exists>j<n. call_index (?log ! j) = k \<and> call_result (?log ! j) = Some Resolved)"
    using in_order_predecessor [OF io] by blast
  have ab: "\<forall>k. (\<forall>c\<in>set ?log. call_index c = k \<longrightarrow> call_result c \<noteq> Some Resolved)
            \<longrightarrow> (\<forall>c\<in>set ?log. call_index c \<le> k)"
    using in_order_abort [OF io] by blast
  from in_order_bound [OF io] have bd: "\<forall>c\<in>set ?log. call_index c \<le> acked ?log" by simp
  from io so pk pre ab bd trace_acked [OF t] show ?thesis by blast
qed

text \<open>
  Claim C7. When \<open>sendData\<close> returns and every invocation made for a packet was rejected,
  it fails with the error of the first of them, whatever the later ones were rejected
  with. When no invocation at all was made for the first packet that is not acknowledged,
  so that no error was recorded, \<open>sendData\<close> fails with a new error of kind
  \<open>WRITE_TIMEOUT\<close>; this is what happens, for any connection, when there is a packet and
  the budget \<open>_maxTries\<close> is below 1. For every integer budget below \<open>2 ^ 53\<close> the retry
  loops end, so that \<open>sendData\<close> does return.
\<close>

theorem sendData_first_error:
  "(\<forall>res st. sendData cfg xmodemEncode connection command data version maxTries = Some (res, st)
      \<longrightarrow> (attempts_of k (calls st) \<noteq> [] \<and> (\<forall>c\<in>set (attempts_of k (calls st)). is_failure c)
            \<longrightarrow> (\<exists>e. call_result (hd (attempts_of k (calls st))) = Some (Rejected e)
                     \<and> res = Failure e))
        \<and> (acked (calls st) < length (xmodemEncode data command version)
            \<and> attempts_of (acked (calls st)) (calls st) = []
            \<longrightarrow> res = Failure (new_DeviceError WRITE_TIMEOUT)))
   \<and> (xmodemEncode data command version \<noteq> [] \<and> \<not> js_le (Finite 1 0) (budget command maxTries)
        \<longrightarrow> sendData cfg xmodemEncode connection command data version maxTries
            = Some (Failure (new_DeviceError WRITE_TIMEOUT), start))
   \<and> errorType (new_DeviceError WRITE_TIMEOUT) = WRITE_TIMEOUT
   \<and> (\<forall>n. budget command maxTries = Finite n 0 \<and> n < 2 ^ 53
        \<longrightarrow> sendData cfg xmodemEncode connection command data version maxTries \<noteq> None)"
proof -
  let ?wp = "writePacket_on cfg connection version"
  have 1: "\<forall>res st. sendData cfg xmodemEncode connection command data version maxTries
      = Some (res, st)
      \<longrightarrow> (attempts_of k (calls st) \<noteq> [] \<and> (\<forall>c\<in>set (attempts_of k (calls st)). is_failure c)
            \<longrightarrow> (\<exists>e. call_result (hd (attempts_of k (calls st))) = Some (Rejected e)
                     \<and> res = Failure e))
        \<and> (acked (calls st) < length (xmodemEncode data command version)
            \<and> attempts_of (acked (calls st)) (calls st) = []
            \<longrightarrow> res = Failure (new_DeviceError WRITE_TIMEOUT))"
  proof (intro allI impI)
    fix res st
    assume "sendData cfg xmodemEncode connection command data version maxTries = Some (res, st)"
    then have "sendData_with ?wp xmodemEncode command data version maxTries = Some (res, st)"
      by (simp add: sendData_def)
    note t = sendData_with_calls [OF this]
    from trace_all_failed [OF t, of k] trace_no_attempt [OF t]
    show "(attempts_of k (calls st) \<noteq> [] \<and> (\<forall>c\<in>set (attempts_of k (calls st)). is_failure c)
            \<longrightarrow> (\<exists>e. call_result (hd (attempts_of k (calls st))) = Some (Rejected e)
                     \<and> res = Failure e))
        \<and> (acked (calls st) < length (xmodemEncode data command version)
            \<and> attempts_of (acked (calls st)) (calls st) = []
            \<longrightarrow> res = Failure (new_DeviceError WRITE_TIMEOUT))"
      by auto
  qed
  have 2: "xmodemEncode data command version \<noteq> [] \<and> \<not> js_le (Finite 1 0) (budget command maxTries)
        \<longrightarrow> sendData cfg xmodemEncode connection command data version maxTries
            = Some (Failure (new_DeviceError WRITE_TIMEOUT), start)"
  proof
    assume a: "xmodemEncode data command version \<noteq> [] \<and> \<not> js_le (Finite 1 0) (budget command maxTries)"
    then obtain d ds where ds: "xmodemEncode data command version = d # ds"
      by (cases "xmodemEncode data command version") auto
    from a have "while_tries ?wp 0 d (Finite 1 0) (budget command maxTries) None start
        = Some (Some (Rejected (new_DeviceError WRITE_TIMEOUT)), start)"
      by (subst while_tries.simps) simp
    with ds show "sendData cfg xmodemEncode connection command data version maxTries
            = Some (Failure (new_DeviceError WRITE_TIMEOUT), start)"
      by (simp add: sendData_def sendData_with_def dataList_item_def Let_def)
  qed
  have 3: "\<forall>n. budget command maxTries = Finite n 0 \<and> n < 2 ^ 53
        \<longrightarrow> sendData cfg xmodemEncode connection command data version maxTries \<noteq> None"
    using sendData_with_returns [of command maxTries _ ?wp xmodemEncode data version]
    by (auto simp add: sendData_def)
  from 1 2 3 show ?thesis by (simp add: errorType_new_DeviceError)
qed

theorem sendData_first_error_witness:
  "map call_result
       (attempts_of 0
         (calls_of (sendData cfg0 two_packets nacks_then_times_out 21 ''102030'' v1 (Finite 3 0))))
      = [Some (Rejected (new_DeviceError WRITE_ERROR)),
         Some (Rejected (new_DeviceError WRITE_TIMEOUT)),
         Some (Rejected (new_DeviceError WRITE_TIMEOUT))]
   \<and> result_of (sendData cfg0 two_packets nacks_then_times_out 21 ''102030'' v1 (Finite 3 0))
      = Some (Failure (new_DeviceError WRITE_ERROR))
   \<and> two_packets ''102030'' 21 v1 \<noteq> []
   \<and> \<not> js_le (Finite 1 0) (budget 21 (Finite 0 0))
   \<and> acked (calls (start :: string sender)) < length (two_packets ''102030'' 21 v1)
   \<and> attempts_of (acked (calls (start :: string sender))) (calls (start :: string sender)) = []
   \<and> sendData cfg0 two_packets always_acks 21 ''102030'' v1 (Finite 0 0)
      = Some (Failure (new_DeviceError WRITE_TIMEOUT), start)
   \<and> budget 21 (Finite 3 0) = Finite 3 0 \<and> (3::int) < 2 ^ 53
   \<and> sendData cfg0 two_packets nacks_then_times_out 21 ''102030'' v1 (Finite 3 0) \<noteq> None"
proof -
  let ?r = "sendData cfg0 two_packets nacks_then_times_out 21 ''102030'' v1 (Finite 3 0)"
  note thm3 = sendData_first_error [where cfg = cfg0 and xmodemEncode = two_packets
      and connection = nacks_then_times_out and command = 21 and data = "''102030''"
      and version = v1 and maxTries = "Finite 3 0" and k = 0]
  note thm0 = sendData_first_error [where cfg = cfg0 and xmodemEncode = two_packets
      and connection = always_acks and command = 21 and data = "''102030''"
      and version = v1 and maxTries = "Finite 0 0" and k = 0]
  have h1: "budget 21 (Finite 3 0) = Finite 3 0" "(3::int) < 2 ^ 53"
    by (simp_all add: budget_def)
  with thm3 have ret: "?r \<noteq> None" by blast
  then obtain res st where rs: "?r = Some (res, st)" by auto
  have a: "map call_result (attempts_of 0 (calls_of ?r))
      = [Some (Rejected (new_DeviceError WRITE_ERROR)),
         Some (Rejected (new_DeviceError WRITE_TIMEOUT)),
         Some (Rejected (new_DeviceError WRITE_TIMEOUT))]"
    by code_simp
  with rs have a': "map call_result (attempts_of 0 (calls st))
      = [Some (Rejected (new_DeviceError WRITE_ERROR)),
         Some (Rejected (new_DeviceError WRITE_TIMEOUT)),
         Some (Rejected (new_DeviceError WRITE_TIMEOUT))]"
    by (simp add: calls_of_def)
  then have ne: "attempts_of 0 (calls st) \<noteq> []" by auto
  have "\<forall>r\<in>set (map call_result (attempts_of 0 (calls st))). \<exists>e. r = Some (Rejected e)"
    unfolding a' by simp
  then have fl: "\<forall>c\<in>set (attempts_of 0 (calls st)). is_failure c"
    by (auto simp add: is_failure_def)
  have hd: "call_result (hd (attempts_of 0 (calls st)))
      = Some (Rejected (new_DeviceError WRITE_ERROR))"
    using a' ne by (cases "attempts_of 0 (calls st)") auto
  from thm3 rs ne fl hd have "res = Failure (new_DeviceError WRITE_ERROR)" by auto
  with rs have r: "result_of ?r = Some (Failure (new_DeviceError WRITE_ERROR))"
    by (simp add: result_of_def)
  have h2: "two_packets ''102030'' 21 v1 \<noteq> []" by (simp add: two_packets_def)
  have h3: "\<not> js_le (Finite 1 0) (budget 21 (Finite 0 0))" by (simp add: budget_def)
  from thm0 h2 h3
  have z: "sendData cfg0 two_packets always_acks 21 ''102030'' v1 (Finite 0 0)
      = Some (Failure (new_DeviceError WRITE_TIMEOUT), start)" by blast
  have h4: "acked (calls (start :: string sender)) < length (two_packets ''102030'' 21 v1)"
    "attempts_of (acked (calls (start :: string sender))) (calls (start :: string sender)) = []"
    by (simp_all add: start_def acked_def attempts_of_def two_packets_def)
  from a r h1 h2 h3 h4 z ret show ?thesis by simp
qed




text \<open>
  Claim C4 says that the operation aborts at the first packet that hits a
  connection-fatal error, with no write for any later packet. With \<open>maxTries = Infinity\<close>
  (and just so with \<open>2 ^ 53\<close>), \<open>tries = _maxTries; tries++\<close> leaves \<open>tries <= _maxTries\<close>
  true: the first packet is closed on, is refused twice while the device is unplugged, is
  sent again and acknowledged, and then the second packet is written; the operation
  succeeds.
\<close>

theorem sendData_retries_after_fatal_error:
  "map call_index
     (calls_of (sendData cfg0 two_packets closes_then_reconnects 21 ''102030'' v1 PosInfinity))
     = [0, 0, 0, 0, 1]
   \<and> map call_result
     (calls_of (sendData cfg0 two_packets closes_then_reconnects 21 ''102030'' v1 PosInfinity))
     = [Some (Rejected (new_DeviceError CONNECTION_CLOSED)),
        Some (Rejected (new_DeviceError CONNECTION_CLOSED)),
        Some (Rejected (new_DeviceError CONNECTION_CLOSED)),
        Some Resolved, Some Resolved]
   \<and> connection_fatal (new_DeviceError CONNECTION_CLOSED)
   \<and> written_of (sendData cfg0 two_packets closes_then_reconnects 21 ''102030'' v1 PosInfinity)
     = [''A'', ''A'', ''B'']
   \<and> result_of (sendData cfg0 two_packets closes_then_reconnects 21 ''102030'' v1 PosInfinity)
     = Some Success
   \<and> calls_of (sendData cfg0 two_packets closes_then_reconnects 21 ''102030'' v1 (Finite 1 53))
     = calls_of (sendData cfg0 two_packets closes_then_reconnects 21 ''102030'' v1 PosInfinity)
   \<and> result_of (sendData cfg0 two_packets closes_then_reconnects 21 ''102030'' v1 (Finite 1 53))
     = Some Success"
  by code_simp

end
